theory Spec2Isabelle
  imports Main "HOL-Library.Sublist"
begin

section \<open>Python strings\<close>

text \<open>
  A Python \<^verbatim>\<open>str\<close> is modelled as a \<^typ>\<open>string\<close>, a character being a code point below
  256. \<^verbatim>\<open>str.lower()\<close> is modelled on the letters of ASCII: it maps the capital ones to the
  small ones and leaves every other character as it is. The words the workflow searches
  for in lowered text (\<^verbatim>\<open>yes\<close>, \<^verbatim>\<open>price\<close>, \<^verbatim>\<open>review\<close>, \<^verbatim>\<open>product\<close>) are made of these
  letters, and no other character below 256 becomes one of them when lowered.
\<close>

definition lower_char :: "char \<Rightarrow> char" where
  "lower_char c =
     (case map_of (zip ''ABCDEFGHIJKLMNOPQRSTUVWXYZ'' ''abcdefghijklmnopqrstuvwxyz'') c of
        Some l \<Rightarrow> l
      | None \<Rightarrow> c)"

definition lower :: "string \<Rightarrow> string" where
  "lower s = map lower_char s"

text \<open>\<^verbatim>\<open>sub in s\<close>: the substring test, scanning \<^verbatim>\<open>s\<close> from the left.\<close>

fun starts_with :: "string \<Rightarrow> string \<Rightarrow> bool" where
  "starts_with [] s = True"
| "starts_with (p # ps) [] = False"
| "starts_with (p # ps) (c # cs) = (p = c \<and> starts_with ps cs)"

fun str_in :: "string \<Rightarrow> string \<Rightarrow> bool" where
  "str_in sub [] = (sub = [])"
| "str_in sub (c # cs) = (starts_with sub (c # cs) \<or> str_in sub cs)"

text \<open>
  \<^verbatim>\<open>s.strip()\<close> removes leading and trailing white space. Below 256 the white space
  characters of a \<^verbatim>\<open>str\<close> are: tab, line feed, vertical tab, form feed, carriage return
  (9 to 13), the four separators 0x1C to 0x1F (28 to 31), the space (32), the next-line
  control 0x85 (133) and the no-break space 0xA0 (160).
\<close>

definition is_space :: "char \<Rightarrow> bool" where
  "is_space c = ((of_char c :: nat) \<in> {9, 10, 11, 12, 13, 28, 29, 30, 31, 32, 133, 160})"

definition strip :: "string \<Rightarrow> string" where
  "strip s = rev (dropWhile is_space (rev (dropWhile is_space s)))"

text \<open>\<^verbatim>\<open>sep.join(chunks)\<close>.\<close>

fun join :: "string \<Rightarrow> string list \<Rightarrow> string" where
  "join sep [] = []"
| "join sep [x] = x"
| "join sep (x # y # ys) = x @ sep @ join sep (y # ys)"

text \<open>\<^verbatim>\<open>d.get(key, default)\<close> on a dictionary.\<close>

definition dict_get :: "('k \<rightharpoonup> 'v) \<Rightarrow> 'k \<Rightarrow> 'v \<Rightarrow> 'v" where
  "dict_get d k dflt = (case d k of None \<Rightarrow> dflt | Some v \<Rightarrow> v)"

text \<open>
  The specification's reading of ``contains the word, compared case-insensitively'': some
  contiguous piece of the text equals the word once both are put in one letter case.
\<close>

definition ci_contains :: "string \<Rightarrow> string \<Rightarrow> bool" where
  "ci_contains word text = (\<exists>u \<in> set (sublists text). lower u = lower word)"

section \<open>Errors\<close>

text \<open>
  Indexing an empty list raises \<^verbatim>\<open>IndexError\<close>; a conditional edge whose result is not in
  its path map raises \<^verbatim>\<open>KeyError\<close>; a language-model or retrieval call may raise whatever
  the collaborator raises; the graph library raises \<^verbatim>\<open>GraphRecursionError\<close> when a run
  has used up its recursion limit without coming to the end.
\<close>

datatype error = IndexError | KeyError | CollaboratorError | GraphRecursionError

definition index_first :: "'a list \<Rightarrow> error + 'a" where
  "index_first xs = (case xs of [] \<Rightarrow> Inl IndexError | x # _ \<Rightarrow> Inr x)"

definition index_last :: "'a list \<Rightarrow> error + 'a" where
  "index_last xs = (if xs = [] then Inl IndexError else Inr (last xs))"

section \<open>Document Formatter\<close>

text \<open>
  A retrieved \<^verbatim>\<open>Document\<close>: the review text and the metadata dictionary, which may be
  \<^verbatim>\<open>None\<close>. A metadata value stands for its rendering by the f-string.
\<close>

record document =
  page_content :: string
  metadata :: "(string \<rightharpoonup> string) option"

definition no_documents :: string where
  "no_documents = ''No relevant documents found.''"

definition separator :: string where
  "separator = ''\<newline>\<newline>---\<newline>\<newline>''"

text \<open>The body of the loop of \<^verbatim>\<open>_format_docs\<close>: the block of one document.\<close>

definition formatted :: "document \<Rightarrow> string" where
  "formatted d =
     (let meta = (case metadata d of None \<Rightarrow> Map.empty | Some m \<Rightarrow> m) in
        ''Title: '' @ dict_get meta ''product_title'' ''N/A'' @ ''\<newline>'' @
        ''Price: '' @ dict_get meta ''price'' ''N/A'' @ ''\<newline>'' @
        ''Rating: '' @ dict_get meta ''rating'' ''N/A'' @ ''\<newline>'' @
        ''Reviews:\<newline>'' @ strip (page_content d))"

text \<open>The loop: each document's block is appended to \<^verbatim>\<open>formatted_chunks\<close>.\<close>

fun format_loop :: "document list \<Rightarrow> string list \<Rightarrow> string list" where
  "format_loop [] formatted_chunks = formatted_chunks"
| "format_loop (d # ds) formatted_chunks = format_loop ds (formatted_chunks @ [formatted d])"

text \<open>\<^verbatim>\<open>_format_docs\<close>; the argument \<open>None\<close> is Python's \<^verbatim>\<open>None\<close>.\<close>

definition format_docs :: "document list option \<Rightarrow> string" where
  "format_docs docs =
     (case docs of
        None \<Rightarrow> no_documents
      | Some [] \<Rightarrow> no_documents
      | Some (d # ds) \<Rightarrow> join separator (format_loop (d # ds) []))"

text \<open>
  The same call with the argument threaded through it as state, to say what the call does
  to the sequence and to its items. The body of the loop reads the metadata and the text
  of the item and assigns to neither: the item after the body is the item before it. The
  loop goes through the items in order and appends to its own list \<^verbatim>\<open>formatted_chunks\<close>
  only; \<open>visited\<close> holds the items already gone through, as they are after the body. The
  call returns the sequence as it is afterwards together with the string.
\<close>

definition format_item :: "document \<Rightarrow> document \<times> string" where
  "format_item d = (d, formatted d)"

fun format_loop_st :: "document list \<Rightarrow> document list \<Rightarrow> string list \<Rightarrow>
    document list \<times> string list" where
  "format_loop_st visited [] formatted_chunks = (visited, formatted_chunks)"
| "format_loop_st visited (d # ds) formatted_chunks =
     (case format_item d of
        (d', block) \<Rightarrow> format_loop_st (visited @ [d']) ds (formatted_chunks @ [block]))"

definition format_docs_st :: "document list option \<Rightarrow> document list option \<times> string" where
  "format_docs_st docs =
     (case docs of
        None \<Rightarrow> (None, no_documents)
      | Some [] \<Rightarrow> (Some [], no_documents)
      | Some (d # ds) \<Rightarrow>
          (case format_loop_st [] (d # ds) [] of
             (docs', formatted_chunks) \<Rightarrow> (Some docs', join separator formatted_chunks)))"

section \<open>Conversation state and collaborators\<close>

text \<open>Every message the workflow creates is a \<^verbatim>\<open>HumanMessage\<close>.\<close>

datatype message = HumanMessage (content: string)

record AgentState =
  messages :: "message list"

text \<open>
  The reducer of the \<^verbatim>\<open>messages\<close> channel. The messages the nodes return carry no
  identifier, so each one gets a fresh identifier and is put at the end.
\<close>

definition add_messages :: "message list \<Rightarrow> message list \<Rightarrow> message list" where
  "add_messages left right = left @ right"

text \<open>
  A call to a collaborator, with the prompt or the query it was given. The node functions
  thread the list of the calls made so far and return it extended.
\<close>

datatype call = LLMCall string | RetrieverCall string

text \<open>
  The collaborators. The language model and the retriever answer the \<open>k\<close>-th collaborator
  call of the process, so that the same prompt may get different answers at different
  times, and either may fail. \<open>product_bot\<close> is the rendering of the registered template
  \<^verbatim>\<open>PROMPT_REGISTRY[PromptType.PRODUCT_BOT]\<close> from its two fields, context and question;
  the prompt library is not among the sources, so the template is a parameter.
\<close>

record env =
  llm :: "nat \<Rightarrow> string \<Rightarrow> error + string"
  retriever :: "nat \<Rightarrow> string \<Rightarrow> error + document list"
  product_bot :: "string \<Rightarrow> string \<Rightarrow> string"

section \<open>Nodes\<close>

definition routing_keywords :: "string list" where
  "routing_keywords = [''price'', ''review'', ''product'']"

definition assistant_prompt :: "string \<Rightarrow> string" where
  "assistant_prompt question =
     ''You are a helpful assistant. Answer the user directly.\<newline>\<newline>Question: '' @
     question @ ''\<newline>Answer:''"

definition grader_prompt :: "string \<Rightarrow> string \<Rightarrow> string" where
  "grader_prompt question docs =
     ''You are a grader. Question: '' @ question @ ''\<newline>Docs: '' @ docs @
     ''\<newline>\<newline>            Are docs relevant to the question? Answer yes or no.''"

definition rewrite_prompt :: "string \<Rightarrow> string" where
  "rewrite_prompt question = ''Rewrite the query to be clearer: '' @ question"

text \<open>
  A node takes the calls made so far and the state; it returns the calls made by now and
  either the error it raised or the messages of its update.
\<close>

definition ai_assistant :: "env \<Rightarrow> call list \<Rightarrow> AgentState \<Rightarrow> call list \<times> (error + message list)" where
  "ai_assistant E log st =
     (case index_last (messages st) of
        Inl e \<Rightarrow> (log, Inl e)
      | Inr m \<Rightarrow>
          (let last_message = content m in
           if list_ex (\<lambda>word. str_in word (lower last_message)) routing_keywords
           then (log, Inr [HumanMessage ''TOOL: retriever''])
           else
             (let prompt = assistant_prompt last_message in
              (log @ [LLMCall prompt],
               case llm E (length log) prompt of
                 Inl e \<Rightarrow> Inl e
               | Inr response \<Rightarrow> Inr [HumanMessage response]))))"

definition vector_retriever :: "env \<Rightarrow> call list \<Rightarrow> AgentState \<Rightarrow> call list \<times> (error + message list)" where
  "vector_retriever E log st =
     (case index_last (messages st) of
        Inl e \<Rightarrow> (log, Inl e)
      | Inr m \<Rightarrow>
          (let query = content m in
           (log @ [RetrieverCall query],
            case retriever E (length log) query of
              Inl e \<Rightarrow> Inl e
            | Inr docs \<Rightarrow> Inr [HumanMessage (format_docs (Some docs))])))"

definition grade_documents :: "env \<Rightarrow> call list \<Rightarrow> AgentState \<Rightarrow> call list \<times> (error + string)" where
  "grade_documents E log st =
     (case index_first (messages st) of
        Inl e \<Rightarrow> (log, Inl e)
      | Inr m0 \<Rightarrow>
          (case index_last (messages st) of
             Inl e \<Rightarrow> (log, Inl e)
           | Inr m \<Rightarrow>
               (let question = content m0; docs = content m;
                    prompt = grader_prompt question docs in
                (log @ [LLMCall prompt],
                 case llm E (length log) prompt of
                   Inl e \<Rightarrow> Inl e
                 | Inr score \<Rightarrow>
                     Inr (if str_in ''yes'' (lower score) then ''generator'' else ''rewriter'')))))"

definition generate :: "env \<Rightarrow> call list \<Rightarrow> AgentState \<Rightarrow> call list \<times> (error + message list)" where
  "generate E log st =
     (case index_first (messages st) of
        Inl e \<Rightarrow> (log, Inl e)
      | Inr m0 \<Rightarrow>
          (case index_last (messages st) of
             Inl e \<Rightarrow> (log, Inl e)
           | Inr m \<Rightarrow>
               (let question = content m0; docs = content m;
                    prompt = product_bot E docs question in
                (log @ [LLMCall prompt],
                 case llm E (length log) prompt of
                   Inl e \<Rightarrow> Inl e
                 | Inr response \<Rightarrow> Inr [HumanMessage response]))))"

definition rewrite :: "env \<Rightarrow> call list \<Rightarrow> AgentState \<Rightarrow> call list \<times> (error + message list)" where
  "rewrite E log st =
     (case index_first (messages st) of
        Inl e \<Rightarrow> (log, Inl e)
      | Inr m0 \<Rightarrow>
          (let question = content m0; prompt = rewrite_prompt question in
           (log @ [LLMCall prompt],
            case llm E (length log) prompt of
              Inl e \<Rightarrow> Inl e
            | Inr new_q \<Rightarrow> Inr [HumanMessage new_q])))"

section \<open>The workflow graph\<close>

datatype node = Assistant | Retriever | Generator | Rewriter | END

text \<open>The conditional edge out of \<^verbatim>\<open>Assistant\<close> (the lambda of \<^verbatim>\<open>_build_workflow\<close>).\<close>

definition assistant_edge :: "AgentState \<Rightarrow> error + node" where
  "assistant_edge st =
     (case index_last (messages st) of
        Inl e \<Rightarrow> Inl e
      | Inr m \<Rightarrow> Inr (if str_in ''TOOL'' (content m) then Retriever else END))"

text \<open>The path map of the conditional edge out of \<^verbatim>\<open>Retriever\<close>.\<close>

definition retriever_paths :: "string \<Rightarrow> error + node" where
  "retriever_paths r =
     (case map_of [(''generator'', Generator), (''rewriter'', Rewriter)] r of
        None \<Rightarrow> Inl KeyError
      | Some n \<Rightarrow> Inr n)"

text \<open>
  A configuration of a run: the node to execute next, the state, and the collaborator
  calls made so far.
\<close>

record config =
  node :: node
  state :: AgentState
  calls :: "call list"

definition apply_update :: "AgentState \<Rightarrow> message list \<Rightarrow> AgentState" where
  "apply_update st upd = st\<lparr>messages := add_messages (messages st) upd\<rparr>"

text \<open>
  One step of the graph built by \<^verbatim>\<open>_build_workflow\<close>: the node runs, its update goes
  through the reducer, and the edge out of the node picks the next node. An error raised
  by the node or by the edge function ends the run.
\<close>

definition step :: "env \<Rightarrow> config \<Rightarrow> error + config" where
  "step E c =
     (case node c of
        Assistant \<Rightarrow>
          (case ai_assistant E (calls c) (state c) of
             (log, Inl e) \<Rightarrow> Inl e
           | (log, Inr upd) \<Rightarrow>
               (let st' = apply_update (state c) upd in
                case assistant_edge st' of
                  Inl e \<Rightarrow> Inl e
                | Inr n \<Rightarrow> Inr \<lparr>node = n, state = st', calls = log\<rparr>))
      | Retriever \<Rightarrow>
          (case vector_retriever E (calls c) (state c) of
             (log, Inl e) \<Rightarrow> Inl e
           | (log, Inr upd) \<Rightarrow>
               (let st' = apply_update (state c) upd in
                case grade_documents E log st' of
                  (log', Inl e) \<Rightarrow> Inl e
                | (log', Inr r) \<Rightarrow>
                    (case retriever_paths r of
                       Inl e \<Rightarrow> Inl e
                     | Inr n \<Rightarrow> Inr \<lparr>node = n, state = st', calls = log'\<rparr>)))
      | Generator \<Rightarrow>
          (case generate E (calls c) (state c) of
             (log, Inl e) \<Rightarrow> Inl e
           | (log, Inr upd) \<Rightarrow>
               Inr \<lparr>node = END, state = apply_update (state c) upd, calls = log\<rparr>)
      | Rewriter \<Rightarrow>
          (case rewrite E (calls c) (state c) of
             (log, Inl e) \<Rightarrow> Inl e
           | (log, Inr upd) \<Rightarrow>
               Inr \<lparr>node = Assistant, state = apply_update (state c) upd, calls = log\<rparr>)
      | END \<Rightarrow> Inr c)"

text \<open>\<open>n\<close> steps from a configuration.\<close>

fun steps :: "nat \<Rightarrow> env \<Rightarrow> config \<Rightarrow> error + config" where
  "steps 0 E c = Inr c"
| "steps (Suc n) E c = (case step E c of Inl e \<Rightarrow> Inl e | Inr c' \<Rightarrow> steps n E c')"

text \<open>
  Running the graph: steps are taken until \<^verbatim>\<open>END\<close> is reached. The graph library gives
  every run a recursion limit, a number of steps; a run that has used them up without
  reaching \<^verbatim>\<open>END\<close> is stopped by the library, which raises \<^verbatim>\<open>GraphRecursionError\<close>.
  \<^verbatim>\<open>run\<close> passes only the thread identifier to \<^verbatim>\<open>invoke\<close>, so the limit is the default of
  the library, 25.
\<close>

definition recursion_limit :: nat where
  "recursion_limit = 25"

fun execute :: "nat \<Rightarrow> env \<Rightarrow> config \<Rightarrow> error + config" where
  "execute 0 E c = (if node c = END then Inr c else Inl GraphRecursionError)"
| "execute (Suc limit) E c =
     (if node c = END then Inr c
      else case step E c of
             Inl e \<Rightarrow> Inl e
           | Inr c' \<Rightarrow> execute limit E c')"

section \<open>The public entry point\<close>

text \<open>
  The checkpointer (\<^verbatim>\<open>MemorySaver\<close>) keeps, for each thread identifier, the state the last
  run on that thread ended with. \<^verbatim>\<open>run\<close> puts the query through the reducer onto the saved
  state of its thread and starts the graph at \<^verbatim>\<open>Assistant\<close>. It returns the content of the
  last message, together with the checkpointer and the calls as they are then. A run that
  raises returns the error only: what it leaves in the checkpointer is not modelled.
\<close>

type_synonym checkpointer = "string \<rightharpoonup> message list"

definition default_thread :: string where
  "default_thread = ''default_thread''"

definition start :: "checkpointer \<Rightarrow> call list \<Rightarrow> string \<Rightarrow> string \<Rightarrow> config" where
  "start saver log query thread_id =
     \<lparr>node = Assistant,
      state = \<lparr>messages = add_messages (case saver thread_id of None \<Rightarrow> [] | Some ms \<Rightarrow> ms)
                                      [HumanMessage query]\<rparr>,
      calls = log\<rparr>"

definition run :: "env \<Rightarrow> checkpointer \<Rightarrow> call list \<Rightarrow> string \<Rightarrow> string \<Rightarrow>
    error + string \<times> checkpointer \<times> call list" where
  "run E saver log query thread_id =
     (case execute recursion_limit E (start saver log query thread_id) of
        Inl e \<Rightarrow> Inl e
      | Inr c \<Rightarrow>
          (case index_last (messages (state c)) of
             Inl e \<Rightarrow> Inl e
           | Inr m \<Rightarrow> Inr (content m, saver(thread_id \<mapsto> messages (state c)), calls c)))"

section \<open>Notions of the specification\<close>

text \<open>The latest turn's text contains one of the routing keywords, in any letter case.\<close>

definition has_routing_keyword :: "string \<Rightarrow> bool" where
  "has_routing_keyword text = (\<exists>w \<in> set routing_keywords. ci_contains w text)"

text \<open>
  A field of an evidence item as the formatter shows it: the metadata value under the key,
  or \<^verbatim>\<open>N/A\<close> when there is no metadata or no such key.
\<close>

definition meta_field :: "document \<Rightarrow> string \<Rightarrow> string" where
  "meta_field d key =
     (case metadata d of
        None \<Rightarrow> ''N/A''
      | Some m \<Rightarrow> (case m key of None \<Rightarrow> ''N/A'' | Some v \<Rightarrow> v))"

text \<open>The four-field block: title, price, rating, review text.\<close>

definition four_field_block :: "string \<Rightarrow> string \<Rightarrow> string \<Rightarrow> string \<Rightarrow> string" where
  "four_field_block title price rating review =
     ''Title: '' @ title @ ''\<newline>Price: '' @ price @ ''\<newline>Rating: '' @ rating @
     ''\<newline>Reviews:\<newline>'' @ review"

text \<open>The queries the retrieval collaborator was invoked with, in order.\<close>

definition retriever_calls :: "call list \<Rightarrow> string list" where
  "retriever_calls log =
     concat (map (\<lambda>c. case c of RetrieverCall q \<Rightarrow> [q] | LLMCall p \<Rightarrow> []) log)"

text \<open>
  The configurations on the cycle \<^verbatim>\<open>Assistant\<close>, \<^verbatim>\<open>Retriever\<close>, \<^verbatim>\<open>Rewriter\<close>: the \<open>n\<close>-th
  one has a non-empty state, and when it is at \<^verbatim>\<open>Assistant\<close> its latest turn has a keyword.
\<close>

definition cycling :: "nat \<Rightarrow> config \<Rightarrow> bool" where
  "cycling n c =
     (messages (state c) \<noteq> [] \<and> node c = [Assistant, Retriever, Rewriter] ! (n mod 3) \<and>
      (node c = Assistant \<longrightarrow> has_routing_keyword (content (last (messages (state c))))))"

section \<open>Sample collaborators and inputs\<close>

text \<open>
  A language model that gives the same answer to every prompt, with a retriever that finds
  nothing.
\<close>

definition const_env :: "string \<Rightarrow> env" where
  "const_env r =
     \<lparr>llm = (\<lambda>k prompt. Inr r), retriever = (\<lambda>k query. Inr []),
      product_bot = (\<lambda>context question. context @ question)\<rparr>"

text \<open>
  Its answer \<^verbatim>\<open>price\<close> has no \<^verbatim>\<open>yes\<close> in it, so the grader never accepts, and has a routing
  keyword in it, so every rewritten question is routed to retrieval.
\<close>

definition loop_env :: env where
  "loop_env = const_env ''price''"

text \<open>A language model that answers with its prompt, with a retriever that finds nothing.\<close>

definition echo_env :: env where
  "echo_env =
     \<lparr>llm = (\<lambda>k prompt. Inr prompt), retriever = (\<lambda>k query. Inr []),
      product_bot = (\<lambda>context question. ''Context: '' @ context @ '' Question: '' @ question)\<rparr>"

definition doc1 :: document where
  "doc1 = \<lparr>page_content = ''  Great phone \<newline>'',
            metadata = Some [''product_title'' \<mapsto> ''iPhone 15'', ''price'' \<mapsto> ''79900'']\<rparr>"

definition doc2 :: document where
  "doc2 = \<lparr>page_content = ''Battery is weak'', metadata = None\<rparr>"

definition price_question :: AgentState where
  "price_question = \<lparr>messages = [HumanMessage ''What is the PRICE of iPhone 15?'']\<rparr>"

definition hello_question :: AgentState where
  "hello_question = \<lparr>messages = [HumanMessage ''Hello'']\<rparr>"

definition graded_state :: AgentState where
  "graded_state =
     \<lparr>messages = [HumanMessage ''cost of phone'', HumanMessage ''TOOL: retriever'',
                  HumanMessage ''No relevant documents found.'']\<rparr>"

text \<open>What a first run on a thread leaves behind with \<open>echo_env\<close>.\<close>

definition first_answer :: string where
  "first_answer = ''Context: No relevant documents found. Question: What is the price of A?''"

definition first_run_messages :: "message list" where
  "first_run_messages =
     [HumanMessage ''What is the price of A?'', HumanMessage ''TOOL: retriever'',
      HumanMessage ''No relevant documents found.'', HumanMessage first_answer]"

definition first_run_calls :: "call list" where
  "first_run_calls =
     [RetrieverCall ''TOOL: retriever'',
      LLMCall (grader_prompt ''What is the price of A?'' ''No relevant documents found.''),
      LLMCall first_answer]"

section \<open>Facts about strings\<close>

lemma starts_with_prefix: "starts_with p s = prefix p s"
  by (induction p s rule: starts_with.induct) simp_all

lemma str_in_sublist: "str_in sub s = sublist sub s"
  by (induction s) (simp_all add: starts_with_prefix sublist_Cons_right)

lemma sublist_map_iff: "sublist w (map f text) \<longleftrightarrow> (\<exists>u. sublist u text \<and> map f u = w)"
proof
  assume "sublist w (map f text)"
  then obtain ps ss where "map f text = ps @ w @ ss"
    by (auto simp: sublist_def)
  then obtain us vs where 1: "text = us @ vs" "w @ ss = map f vs"
    by (auto simp: map_eq_append_conv)
  from 1(2) obtain u ts where 2: "vs = u @ ts" "w = map f u"
    by (auto simp: append_eq_map_conv)
  from 1(1) 2 show "\<exists>u. sublist u text \<and> map f u = w"
    by (auto simp: sublist_def)
next
  assume "\<exists>u. sublist u text \<and> map f u = w"
  then show "sublist w (map f text)"
    by (auto intro: map_mono_sublist)
qed

text \<open>
  Searching a lower-case word in the lowered text is the same as searching the text for the
  word in any letter case.
\<close>

lemma str_in_lower: "lower w = w \<Longrightarrow> str_in w (lower text) = ci_contains w text"
  by (auto simp: str_in_sublist ci_contains_def lower_def sublist_map_iff)

lemma lower_yes: "lower ''yes'' = ''yes''"
  by (simp add: lower_def lower_char_def)

lemma lower_keywords: "w \<in> set routing_keywords \<Longrightarrow> lower w = w"
  by (auto simp: routing_keywords_def lower_def lower_char_def)

lemma any_keyword:
  "list_ex (\<lambda>word. str_in word (lower text)) routing_keywords = has_routing_keyword text"
  by (auto simp: list_ex_iff has_routing_keyword_def str_in_lower lower_keywords)

lemma kw_price_question: "has_routing_keyword ''What is the PRICE of iPhone 15?''"
  by (simp add: any_keyword [symmetric] routing_keywords_def lower_def lower_char_def)

lemma kw_hello: "\<not> has_routing_keyword ''Hello''"
  by (simp add: any_keyword [symmetric] routing_keywords_def lower_def lower_char_def)

lemma kw_price: "has_routing_keyword ''price''"
  by (simp add: any_keyword [symmetric] routing_keywords_def lower_def lower_char_def)

lemma kw_first: "has_routing_keyword ''What is the price of A?''"
  by (simp add: any_keyword [symmetric] routing_keywords_def lower_def lower_char_def)

lemma kw_second: "has_routing_keyword ''Any review of B?''"
  by (simp add: any_keyword [symmetric] routing_keywords_def lower_def lower_char_def)

lemma no_yes_price: "\<not> ci_contains ''yes'' ''price''"
  by (simp add: str_in_lower [symmetric] lower_yes) (simp add: lower_def lower_char_def)

lemma grader_prompt_yes: "ci_contains ''yes'' (grader_prompt q d)"
proof -
  let ?tail = "''\<newline>\<newline>            Are docs relevant to the question? Answer yes or no.''"
  have "sublist ''yes'' (lower ?tail)"
    by (simp add: str_in_sublist [symmetric] lower_def lower_char_def)
  then have "sublist ''yes''
      (lower (''You are a grader. Question: '' @ q @ ''\<newline>Docs: '' @ d) @ lower ?tail)"
    by (simp add: sublist_append)
  then have "str_in ''yes'' (lower (grader_prompt q d))"
    by (simp add: str_in_sublist grader_prompt_def lower_def)
  then show ?thesis
    by (simp add: str_in_lower lower_yes)
qed

section \<open>Facts about the formatter\<close>

lemma format_loop_append: "format_loop ds acc = acc @ map formatted ds"
  by (induction ds arbitrary: acc) simp_all

lemma format_loop_st_append:
  "format_loop_st visited ds acc = (visited @ ds, acc @ map formatted ds)"
  by (induction ds arbitrary: visited acc) (simp_all add: format_item_def)

lemma formatted_block:
  "formatted d =
     four_field_block (meta_field d ''product_title'') (meta_field d ''price'')
       (meta_field d ''rating'') (strip (page_content d))"
  by (simp add: formatted_def four_field_block_def meta_field_def dict_get_def
      split: option.splits)

section \<open>Facts about the nodes and the steps\<close>

lemma index_last_ne: "xs \<noteq> [] \<Longrightarrow> index_last xs = Inr (last xs)"
  by (simp add: index_last_def)

lemma index_first_ne: "xs \<noteq> [] \<Longrightarrow> index_first xs = Inr (hd xs)"
  by (cases xs) (simp_all add: index_first_def)

lemma step_Assistant_keyword:
  assumes "messages st \<noteq> []" "has_routing_keyword (content (last (messages st)))"
  shows "step E \<lparr>node = Assistant, state = st, calls = log\<rparr> =
           Inr \<lparr>node = Retriever,
                state = st\<lparr>messages := messages st @ [HumanMessage ''TOOL: retriever'']\<rparr>,
                calls = log\<rparr>"
  using assms
  by (simp add: step_def ai_assistant_def any_keyword index_last_ne apply_update_def
      add_messages_def assistant_edge_def Let_def)

lemma step_Assistant_direct:
  assumes "messages st \<noteq> []" "\<not> has_routing_keyword (content (last (messages st)))"
    and "llm E (length log) (assistant_prompt (content (last (messages st)))) = Inr response"
  shows "step E \<lparr>node = Assistant, state = st, calls = log\<rparr> =
           Inr \<lparr>node = (if sublist ''TOOL'' response then Retriever else END),
                state = st\<lparr>messages := messages st @ [HumanMessage response]\<rparr>,
                calls = log @ [LLMCall (assistant_prompt (content (last (messages st))))]\<rparr>"
  using assms
  by (simp add: step_def ai_assistant_def any_keyword index_last_ne apply_update_def
      add_messages_def assistant_edge_def Let_def str_in_sublist [symmetric])

lemma step_Retriever:
  assumes "messages st \<noteq> []"
    and "retriever E (length log) (content (last (messages st))) = Inr docs"
    and "llm E (Suc (length log))
           (grader_prompt (content (hd (messages st))) (format_docs (Some docs))) = Inr score"
  shows "step E \<lparr>node = Retriever, state = st, calls = log\<rparr> =
           Inr \<lparr>node = (if ci_contains ''yes'' score then Generator else Rewriter),
                state = st\<lparr>messages := messages st @ [HumanMessage (format_docs (Some docs))]\<rparr>,
                calls = log @ [RetrieverCall (content (last (messages st))),
                               LLMCall (grader_prompt (content (hd (messages st)))
                                          (format_docs (Some docs)))]\<rparr>"
  using assms
  by (simp add: step_def vector_retriever_def grade_documents_def index_last_ne index_first_ne
      apply_update_def add_messages_def retriever_paths_def str_in_lower lower_yes Let_def)

lemma step_Generator:
  assumes "messages st \<noteq> []"
    and "llm E (length log)
           (product_bot E (content (last (messages st))) (content (hd (messages st)))) =
         Inr response"
  shows "step E \<lparr>node = Generator, state = st, calls = log\<rparr> =
           Inr \<lparr>node = END,
                state = st\<lparr>messages := messages st @ [HumanMessage response]\<rparr>,
                calls = log @ [LLMCall (product_bot E (content (last (messages st)))
                                          (content (hd (messages st))))]\<rparr>"
  using assms
  by (simp add: step_def generate_def index_last_ne index_first_ne apply_update_def
      add_messages_def Let_def)

lemma step_Rewriter:
  assumes "messages st \<noteq> []"
    and "llm E (length log) (rewrite_prompt (content (hd (messages st)))) = Inr new_q"
  shows "step E \<lparr>node = Rewriter, state = st, calls = log\<rparr> =
           Inr \<lparr>node = Assistant,
                state = st\<lparr>messages := messages st @ [HumanMessage new_q]\<rparr>,
                calls = log @ [LLMCall (rewrite_prompt (content (hd (messages st))))]\<rparr>"
  using assms
  by (simp add: step_def rewrite_def index_first_ne apply_update_def add_messages_def Let_def)

lemma assistant_calls_direct:
  assumes "messages st \<noteq> []" "\<not> has_routing_keyword (content (last (messages st)))"
  shows "fst (ai_assistant E log st) =
           log @ [LLMCall (assistant_prompt (content (last (messages st))))]"
  using assms by (simp add: ai_assistant_def any_keyword index_last_ne Let_def)

lemma retriever_calls_node:
  assumes "messages st \<noteq> []"
  shows "fst (vector_retriever E log st) = log @ [RetrieverCall (content (last (messages st)))]"
  using assms by (simp add: vector_retriever_def index_last_ne Let_def)

lemma step_messages:
  assumes "node c \<noteq> END" "step E c = Inr c'"
  shows "\<exists>m. messages (state c') = messages (state c) @ [m]"
proof (cases "node c")
  case Assistant
  with assms show ?thesis
    by (auto simp: step_def ai_assistant_def apply_update_def add_messages_def Let_def
        split: sum.splits if_splits prod.splits)
next
  case Retriever
  with assms show ?thesis
    by (auto simp: step_def vector_retriever_def apply_update_def add_messages_def Let_def
        split: sum.splits if_splits prod.splits)
next
  case Generator
  with assms show ?thesis
    by (auto simp: step_def generate_def apply_update_def add_messages_def Let_def
        split: sum.splits if_splits prod.splits)
next
  case Rewriter
  with assms show ?thesis
    by (auto simp: step_def rewrite_def apply_update_def add_messages_def Let_def
        split: sum.splits if_splits prod.splits)
next
  case END
  with assms show ?thesis by simp
qed

lemma execute_END: "node c = END \<Longrightarrow> execute limit E c = Inr c"
  by (cases limit) simp_all

lemma execute_step:
  "node c \<noteq> END \<Longrightarrow> step E c = Inr c' \<Longrightarrow> execute (Suc limit) E c = execute limit E c'"
  by simp

lemma recursion_limit_Suc: "recursion_limit = Suc (Suc (Suc 22))"
  by (simp add: recursion_limit_def)

section \<open>The rewrite cycle\<close>

lemma mod3_cases: "(n::nat) mod 3 = 0 \<or> n mod 3 = 1 \<or> n mod 3 = 2"
  by arith

lemma Suc_mod3:
  "n mod 3 = 0 \<Longrightarrow> Suc n mod 3 = 1"
  "n mod 3 = 1 \<Longrightarrow> Suc n mod 3 = 2"
  "n mod 3 = 2 \<Longrightarrow> Suc n mod 3 = 0"
  by arith+

lemma cycling_step:
  assumes "cycling n c"
  shows "\<exists>c'. step loop_env c = Inr c' \<and> cycling (Suc n) c'"
proof -
  obtain nd st log where c: "c = \<lparr>node = nd, state = st, calls = log\<rparr>"
    by (cases c) auto
  from assms c have ne: "messages st \<noteq> []"
    by (simp add: cycling_def)
  from mod3_cases [of n] show ?thesis
  proof (elim disjE)
    assume m: "n mod 3 = 0"
    with assms c have "nd = Assistant" "has_routing_keyword (content (last (messages st)))"
      by (simp_all add: cycling_def)
    with ne c Suc_mod3(1) [OF m] show ?thesis
      by (simp add: step_Assistant_keyword cycling_def)
  next
    assume m: "n mod 3 = 1"
    with assms c have nd: "nd = Retriever"
      by (simp add: cycling_def)
    have "step loop_env \<lparr>node = Retriever, state = st, calls = log\<rparr> =
           Inr \<lparr>node = (if ci_contains ''yes'' ''price'' then Generator else Rewriter),
                state = st\<lparr>messages := messages st @ [HumanMessage (format_docs (Some []))]\<rparr>,
                calls = log @ [RetrieverCall (content (last (messages st))),
                               LLMCall (grader_prompt (content (hd (messages st)))
                                          (format_docs (Some [])))]\<rparr>"
      using ne by (intro step_Retriever) (simp_all add: loop_env_def const_env_def)
    with nd c Suc_mod3(2) [OF m] show ?thesis
      by (simp add: no_yes_price cycling_def)
  next
    assume m: "n mod 3 = 2"
    with assms c have nd: "nd = Rewriter"
      by (simp add: cycling_def)
    have "step loop_env \<lparr>node = Rewriter, state = st, calls = log\<rparr> =
           Inr \<lparr>node = Assistant,
                state = st\<lparr>messages := messages st @ [HumanMessage ''price'']\<rparr>,
                calls = log @ [LLMCall (rewrite_prompt (content (hd (messages st))))]\<rparr>"
      using ne by (intro step_Rewriter) (simp_all add: loop_env_def const_env_def)
    with nd c Suc_mod3(3) [OF m] show ?thesis
      by (simp add: kw_price cycling_def)
  qed
qed

lemma cycling_not_END: "cycling n c \<Longrightarrow> node c \<noteq> END"
  using mod3_cases [of n] by (auto simp: cycling_def)

lemma cycling_steps: "cycling k c \<Longrightarrow> \<exists>c'. steps n loop_env c = Inr c' \<and> cycling (k + n) c'"
proof (induction n arbitrary: k c)
  case 0
  then show ?case by simp
next
  case (Suc n)
  from cycling_step [OF Suc.prems] obtain c1
    where 1: "step loop_env c = Inr c1" "cycling (Suc k) c1"
    by blast
  from Suc.IH [OF 1(2)] 1(1) show ?case by simp
qed

text \<open>A run that starts on the cycle uses up any limit: induction on the limit.\<close>

lemma cycling_execute: "cycling k c \<Longrightarrow> execute limit loop_env c = Inl GraphRecursionError"
proof (induction limit arbitrary: k c)
  case 0
  then show ?case
    by (simp add: cycling_not_END)
next
  case (Suc limit)
  from cycling_step [OF Suc.prems] obtain c1
    where 1: "step loop_env c = Inr c1" "cycling (Suc k) c1"
    by blast
  from Suc.IH [OF 1(2)] 1(1) cycling_not_END [OF Suc.prems] show ?case
    by simp
qed

lemma cycling_start: "has_routing_keyword query \<Longrightarrow> cycling 0 (start saver log query thread_id)"
  by (simp add: cycling_def start_def add_messages_def)

section \<open>A run through retrieval\<close>

text \<open>
  With \<open>echo_env\<close> the grader's answer is its own prompt, which has \<^verbatim>\<open>yes\<close> in it: a
  question with a keyword goes through \<^verbatim>\<open>Assistant\<close>, \<^verbatim>\<open>Retriever\<close> and \<^verbatim>\<open>Generator\<close>.
\<close>

lemma execute_echo_retrieval:
  assumes "messages st \<noteq> []" "has_routing_keyword (content (last (messages st)))"
  shows "execute (Suc (Suc (Suc limit))) echo_env \<lparr>node = Assistant, state = st, calls = log\<rparr> =
     Inr \<lparr>node = END,
        state = st\<lparr>messages := messages st @
          [HumanMessage ''TOOL: retriever'', HumanMessage ''No relevant documents found.'',
           HumanMessage (''Context: No relevant documents found. Question: '' @
                         content (hd (messages st)))]\<rparr>,
        calls = log @
          [RetrieverCall ''TOOL: retriever'',
           LLMCall (grader_prompt (content (hd (messages st))) ''No relevant documents found.''),
           LLMCall (''Context: No relevant documents found. Question: '' @
                    content (hd (messages st)))]\<rparr>"
proof -
  let ?st1 = "st\<lparr>messages := messages st @ [HumanMessage ''TOOL: retriever'']\<rparr>"
  let ?st2 = "?st1\<lparr>messages := messages ?st1 @ [HumanMessage (format_docs (Some []))]\<rparr>"
  let ?log2 = "log @ [RetrieverCall (content (last (messages ?st1))),
                      LLMCall (grader_prompt (content (hd (messages ?st1))) (format_docs (Some [])))]"
  let ?a = "product_bot echo_env (content (last (messages ?st2))) (content (hd (messages ?st2)))"
  let ?st3 = "?st2\<lparr>messages := messages ?st2 @ [HumanMessage ?a]\<rparr>"
  let ?c1 = "\<lparr>node = Retriever, state = ?st1, calls = log\<rparr>"
  let ?c2 = "\<lparr>node = Generator, state = ?st2, calls = ?log2\<rparr>"
  let ?c3 = "\<lparr>node = END, state = ?st3, calls = ?log2 @ [LLMCall ?a]\<rparr>"
  have s1: "step echo_env \<lparr>node = Assistant, state = st, calls = log\<rparr> = Inr ?c1"
    using assms by (rule step_Assistant_keyword)
  have "step echo_env ?c1 =
      Inr \<lparr>node = (if ci_contains ''yes''
                        (grader_prompt (content (hd (messages ?st1))) (format_docs (Some [])))
                    then Generator else Rewriter),
           state = ?st2, calls = ?log2\<rparr>"
    by (rule step_Retriever) (simp_all add: echo_env_def)
  then have s2: "step echo_env ?c1 = Inr ?c2"
    by (simp add: grader_prompt_yes)
  have s3: "step echo_env ?c2 = Inr ?c3"
    by (rule step_Generator) (simp_all add: echo_env_def)
  have "execute (Suc (Suc (Suc limit))) echo_env \<lparr>node = Assistant, state = st, calls = log\<rparr> =
      execute (Suc (Suc limit)) echo_env ?c1"
    using s1 by (intro execute_step) simp_all
  also have "\<dots> = execute (Suc limit) echo_env ?c2"
    using s2 by (intro execute_step) simp_all
  also have "\<dots> = execute limit echo_env ?c3"
    using s3 by (intro execute_step) simp_all
  also have "\<dots> = Inr ?c3"
    by (intro execute_END) simp
  finally show ?thesis
    using assms(1) by (simp add: format_docs_def no_documents_def echo_env_def)
qed

lemma execute_echo_retrieval_default:
  assumes "messages st \<noteq> []" "has_routing_keyword (content (last (messages st)))"
  shows "execute recursion_limit echo_env \<lparr>node = Assistant, state = st, calls = log\<rparr> =
     Inr \<lparr>node = END,
        state = st\<lparr>messages := messages st @
          [HumanMessage ''TOOL: retriever'', HumanMessage ''No relevant documents found.'',
           HumanMessage (''Context: No relevant documents found. Question: '' @
                         content (hd (messages st)))]\<rparr>,
        calls = log @
          [RetrieverCall ''TOOL: retriever'',
           LLMCall (grader_prompt (content (hd (messages st))) ''No relevant documents found.''),
           LLMCall (''Context: No relevant documents found. Question: '' @
                    content (hd (messages st)))]\<rparr>"
  unfolding recursion_limit_Suc using assms by (rule execute_echo_retrieval)

section \<open>The claims\<close>

text \<open>
  C1 (Relevance Grader verdict rule). The grader reads the question from the first entry
  and the context from the last one and asks the language model once. Whenever the model
  answers, the verdict is \<^verbatim>\<open>generator\<close>, which the graph maps to the Generator node, if the
  answer contains \<^verbatim>\<open>yes\<close> in any letter case, and \<^verbatim>\<open>rewriter\<close>, mapped to the Rewriter
  node, for every other answer, the empty one included.
\<close>

theorem C1_grade_verdict:
  assumes "messages st \<noteq> []"
    and "llm E (length log)
           (grader_prompt (content (hd (messages st))) (content (last (messages st)))) =
         Inr score"
  shows "snd (grade_documents E log st) =
           Inr (if ci_contains ''yes'' score then ''generator'' else ''rewriter'') \<and>
         retriever_paths (if ci_contains ''yes'' score then ''generator'' else ''rewriter'') =
           Inr (if ci_contains ''yes'' score then Generator else Rewriter)"
  using assms
  by (simp add: grade_documents_def index_first_ne index_last_ne str_in_lower lower_yes
      retriever_paths_def Let_def)

theorem C1_grade_verdict_witness:
  "messages graded_state \<noteq> [] \<and>
   llm (const_env ''YES'') (length ([] :: call list))
     (grader_prompt (content (hd (messages graded_state)))
        (content (last (messages graded_state)))) = Inr ''YES'' \<and>
   snd (grade_documents (const_env ''YES'') [] graded_state) = Inr ''generator'' \<and>
   retriever_paths ''generator'' = Inr Generator \<and>
   llm (const_env '''') (length ([] :: call list))
     (grader_prompt (content (hd (messages graded_state)))
        (content (last (messages graded_state)))) = Inr '''' \<and>
   snd (grade_documents (const_env '''') [] graded_state) = Inr ''rewriter'' \<and>
   retriever_paths ''rewriter'' = Inr Rewriter"
proof -
  have yes: "ci_contains ''yes'' ''YES''"
    by (simp add: str_in_lower [symmetric] lower_yes) (simp add: lower_def lower_char_def)
  have empty: "\<not> ci_contains ''yes'' ''''"
    by (simp add: str_in_lower [symmetric] lower_yes) (simp add: lower_def)
  have ne: "messages graded_state \<noteq> []"
    by (simp add: graded_state_def)
  have 1: "llm (const_env ''YES'') (length ([] :: call list))
     (grader_prompt (content (hd (messages graded_state)))
        (content (last (messages graded_state)))) = Inr ''YES''"
    by (simp add: const_env_def)
  have 2: "llm (const_env '''') (length ([] :: call list))
     (grader_prompt (content (hd (messages graded_state)))
        (content (last (messages graded_state)))) = Inr ''''"
    by (simp add: const_env_def)
  from C1_grade_verdict [OF ne 1] C1_grade_verdict [OF ne 2] yes empty ne 1 2
  show ?thesis by simp
qed

text \<open>
  C2 (Intent Router routing rule). When the latest turn's text contains \<^verbatim>\<open>price\<close>,
  \<^verbatim>\<open>review\<close> or \<^verbatim>\<open>product\<close> in any letter case, the router step appends the marker
  \<^verbatim>\<open>TOOL: retriever\<close> without calling any collaborator, the graph goes to the Retriever
  node, and that node invokes the retrieval collaborator. When the text contains none of
  them, the router step invokes the retrieval collaborator not at all.
\<close>

theorem C2_routing_rule:
  assumes "messages st \<noteq> []"
  shows "(has_routing_keyword (content (last (messages st))) \<longrightarrow>
            step E \<lparr>node = Assistant, state = st, calls = log\<rparr> =
              Inr \<lparr>node = Retriever,
                   state = st\<lparr>messages := messages st @ [HumanMessage ''TOOL: retriever'']\<rparr>,
                   calls = log\<rparr> \<and>
            retriever_calls (fst (vector_retriever E log
                (st\<lparr>messages := messages st @ [HumanMessage ''TOOL: retriever'']\<rparr>))) =
              retriever_calls log @ [''TOOL: retriever'']) \<and>
         (\<not> has_routing_keyword (content (last (messages st))) \<longrightarrow>
            retriever_calls (fst (ai_assistant E log st)) = retriever_calls log)"
  using assms
  by (simp add: step_Assistant_keyword assistant_calls_direct retriever_calls_node
      retriever_calls_def)

theorem C2_routing_rule_witness:
  "messages price_question \<noteq> [] \<and>
   has_routing_keyword (content (last (messages price_question))) \<and>
   step (const_env ''Hi there'') \<lparr>node = Assistant, state = price_question, calls = []\<rparr> =
     Inr \<lparr>node = Retriever,
          state = \<lparr>messages = [HumanMessage ''What is the PRICE of iPhone 15?'',
                                HumanMessage ''TOOL: retriever'']\<rparr>,
          calls = []\<rparr> \<and>
   messages hello_question \<noteq> [] \<and>
   \<not> has_routing_keyword (content (last (messages hello_question))) \<and>
   retriever_calls (fst (ai_assistant (const_env ''Hi there'') [] hello_question)) = []"
  using C2_routing_rule [of price_question "const_env ''Hi there''" "[]"]
    C2_routing_rule [of hello_question "const_env ''Hi there''" "[]"]
    kw_price_question kw_hello
  by (simp add: price_question_def hello_question_def retriever_calls_def)

text \<open>
  C3 (direct-answer path), as stated: a latest turn without a routing keyword takes the
  engine from Routing to Generating, where the Answer Generator with the registered
  template produces the answer. It fails on the question \<^verbatim>\<open>Hello\<close>: the router step itself
  asks the language model, with its own prompt, and the graph goes from \<^verbatim>\<open>Assistant\<close>
  straight to \<^verbatim>\<open>END\<close>; the Generator node is not entered.
\<close>

theorem C3_direct_answer_counterexample:
  "\<not> has_routing_keyword ''Hello'' \<and>
   step (const_env ''Hi there'') \<lparr>node = Assistant, state = hello_question, calls = []\<rparr> =
     Inr \<lparr>node = END,
          state = \<lparr>messages = [HumanMessage ''Hello'', HumanMessage ''Hi there'']\<rparr>,
          calls = [LLMCall (assistant_prompt ''Hello'')]\<rparr> \<and>
   node \<lparr>node = END,
         state = \<lparr>messages = [HumanMessage ''Hello'', HumanMessage ''Hi there'']\<rparr>,
         calls = [LLMCall (assistant_prompt ''Hello'')]\<rparr> \<noteq> Generator \<and>
   execute recursion_limit (const_env ''Hi there'')
       \<lparr>node = Assistant, state = hello_question, calls = []\<rparr> =
     Inr \<lparr>node = END,
          state = \<lparr>messages = [HumanMessage ''Hello'', HumanMessage ''Hi there'']\<rparr>,
          calls = [LLMCall (assistant_prompt ''Hello'')]\<rparr>"
proof -
  let ?c = "\<lparr>node = Assistant, state = hello_question, calls = []\<rparr>"
  let ?c' = "\<lparr>node = END,
          state = \<lparr>messages = [HumanMessage ''Hello'', HumanMessage ''Hi there'']\<rparr>,
          calls = [LLMCall (assistant_prompt ''Hello'')]\<rparr>"
  have s: "step (const_env ''Hi there'') ?c = Inr ?c'"
    using step_Assistant_direct [of hello_question "const_env ''Hi there''" "[]" "''Hi there''"]
      kw_hello
    by (simp add: hello_question_def const_env_def str_in_sublist [symmetric])
  have "execute recursion_limit (const_env ''Hi there'') ?c =
      execute (Suc (Suc 22)) (const_env ''Hi there'') ?c'"
    unfolding recursion_limit_Suc using s by (intro execute_step) simp_all
  also have "\<dots> = Inr ?c'"
    by (intro execute_END) simp
  finally show ?thesis
    using s kw_hello by simp
qed

text \<open>
  C3, amended. When the latest turn's text contains no routing keyword, the router node
  itself asks the language model once, with its own direct-answer prompt filled with the
  question only (no context, and not the registered product-assistant template), and
  appends the answer; when that answer does not contain \<^verbatim>\<open>TOOL\<close>, the graph goes from
  Routing straight to the terminal state and the run ends there, the Generator node never
  entered.
\<close>

theorem C3_direct_answer_amended:
  assumes "messages st \<noteq> []"
    and "\<not> has_routing_keyword (content (last (messages st)))"
    and "llm E (length log)
           (''You are a helpful assistant. Answer the user directly.\<newline>\<newline>Question: '' @
            content (last (messages st)) @ ''\<newline>Answer:'') = Inr response"
    and "\<not> sublist ''TOOL'' response"
  shows "step E \<lparr>node = Assistant, state = st, calls = log\<rparr> =
           Inr \<lparr>node = END,
                state = st\<lparr>messages := messages st @ [HumanMessage response]\<rparr>,
                calls = log @ [LLMCall
                  (''You are a helpful assistant. Answer the user directly.\<newline>\<newline>Question: '' @
                   content (last (messages st)) @ ''\<newline>Answer:'')]\<rparr> \<and>
         execute recursion_limit E \<lparr>node = Assistant, state = st, calls = log\<rparr> =
           Inr \<lparr>node = END,
                state = st\<lparr>messages := messages st @ [HumanMessage response]\<rparr>,
                calls = log @ [LLMCall
                  (''You are a helpful assistant. Answer the user directly.\<newline>\<newline>Question: '' @
                   content (last (messages st)) @ ''\<newline>Answer:'')]\<rparr>"
proof -
  let ?c' = "\<lparr>node = END,
                state = st\<lparr>messages := messages st @ [HumanMessage response]\<rparr>,
                calls = log @ [LLMCall (assistant_prompt (content (last (messages st))))]\<rparr>"
  have s: "step E \<lparr>node = Assistant, state = st, calls = log\<rparr> = Inr ?c'"
    using assms step_Assistant_direct [of st E log response]
    by (simp add: assistant_prompt_def)
  have "execute recursion_limit E \<lparr>node = Assistant, state = st, calls = log\<rparr> =
      execute (Suc (Suc 22)) E ?c'"
    unfolding recursion_limit_Suc using s by (intro execute_step) simp_all
  also have "\<dots> = Inr ?c'"
    by (intro execute_END) simp
  finally show ?thesis
    using s by (simp add: assistant_prompt_def)
qed

theorem C3_direct_answer_amended_witness:
  "messages hello_question \<noteq> [] \<and>
   \<not> has_routing_keyword (content (last (messages hello_question))) \<and>
   llm (const_env ''Hi there'') (length ([] :: call list))
     (''You are a helpful assistant. Answer the user directly.\<newline>\<newline>Question: '' @
      content (last (messages hello_question)) @ ''\<newline>Answer:'') = Inr ''Hi there'' \<and>
   \<not> sublist ''TOOL'' ''Hi there'' \<and>
   execute recursion_limit (const_env ''Hi there'')
       \<lparr>node = Assistant, state = hello_question, calls = []\<rparr> =
     Inr \<lparr>node = END,
          state = \<lparr>messages = [HumanMessage ''Hello'', HumanMessage ''Hi there'']\<rparr>,
          calls = [LLMCall
            ''You are a helpful assistant. Answer the user directly.\<newline>\<newline>Question: Hello\<newline>Answer:'']\<rparr>"
  using C3_direct_answer_amended [of hello_question "const_env ''Hi there''" "[]" "''Hi there''"]
    kw_hello
  by (simp add: hello_question_def const_env_def str_in_sublist [symmetric])

text \<open>
  C4 (Rewriting transition). The Rewriter node asks the language model to rewrite the
  content of the first entry of the state; whenever the model answers, the step goes to
  \<^verbatim>\<open>Assistant\<close>, whatever the answer, and the rewritten question is the new latest entry of
  the state, put after the entries that were there. The prompt is built from the first
  entry alone, not from the latest one.
\<close>

theorem C4_rewriting_transition:
  assumes "messages st \<noteq> []"
    and "llm E (length log) (''Rewrite the query to be clearer: '' @ content (hd (messages st))) =
         Inr new_q"
  shows "step E \<lparr>node = Rewriter, state = st, calls = log\<rparr> =
           Inr \<lparr>node = Assistant,
                state = st\<lparr>messages := messages st @ [HumanMessage new_q]\<rparr>,
                calls = log @ [LLMCall (''Rewrite the query to be clearer: '' @
                                        content (hd (messages st)))]\<rparr>"
  using assms step_Rewriter [of st E log new_q]
  by (simp add: rewrite_prompt_def)

theorem C4_rewriting_transition_witness:
  "messages graded_state \<noteq> [] \<and>
   llm (const_env ''What is the price of the phone?'') (length ([] :: call list))
     (''Rewrite the query to be clearer: '' @ content (hd (messages graded_state))) =
     Inr ''What is the price of the phone?'' \<and>
   step (const_env ''What is the price of the phone?'')
     \<lparr>node = Rewriter, state = graded_state, calls = []\<rparr> =
     Inr \<lparr>node = Assistant,
          state = \<lparr>messages = [HumanMessage ''cost of phone'', HumanMessage ''TOOL: retriever'',
                     HumanMessage ''No relevant documents found.'',
                     HumanMessage ''What is the price of the phone?'']\<rparr>,
          calls = [LLMCall ''Rewrite the query to be clearer: cost of phone'']\<rparr>"
  using C4_rewriting_transition [of graded_state "const_env ''What is the price of the phone?''"
      "[]" "''What is the price of the phone?''"]
  by (simp add: graded_state_def const_env_def)

text \<open>
  C5 (positional invariant of the Conversation State). The claim is that in every run,
  resumed ones included, the first entry is the question of the current run, so that the
  nodes reading the question from the first entry read the current question. On a thread
  that already holds a finished run, \<^verbatim>\<open>run\<close> puts the new query after the saved entries:
  the first entry is then the question of the first run. Here the second run, asked
  \<^verbatim>\<open>Any review of B?\<close>, grades and answers \<^verbatim>\<open>What is the price of A?\<close> once more.
\<close>

theorem C5_resumed_run_reads_first_question:
  "run echo_env Map.empty [] ''What is the price of A?'' ''t1'' =
     Inr (first_answer, [''t1'' \<mapsto> first_run_messages], first_run_calls) \<and>
   index_first (messages (state
       (start [''t1'' \<mapsto> first_run_messages] first_run_calls ''Any review of B?'' ''t1''))) =
     Inr (HumanMessage ''What is the price of A?'') \<and>
   run echo_env [''t1'' \<mapsto> first_run_messages] first_run_calls ''Any review of B?'' ''t1'' =
     Inr (first_answer,
       [''t1'' \<mapsto> first_run_messages @
          [HumanMessage ''Any review of B?'', HumanMessage ''TOOL: retriever'',
           HumanMessage ''No relevant documents found.'', HumanMessage first_answer]],
       first_run_calls @
          [RetrieverCall ''TOOL: retriever'',
           LLMCall (grader_prompt ''What is the price of A?'' ''No relevant documents found.''),
           LLMCall first_answer])"
proof (intro conjI)
  show "run echo_env Map.empty [] ''What is the price of A?'' ''t1'' =
     Inr (first_answer, [''t1'' \<mapsto> first_run_messages], first_run_calls)"
    using kw_first
    by (simp add: run_def start_def add_messages_def execute_echo_retrieval_default index_last_def
        first_answer_def first_run_messages_def first_run_calls_def)
next
  show "index_first (messages (state
       (start [''t1'' \<mapsto> first_run_messages] first_run_calls ''Any review of B?'' ''t1''))) =
     Inr (HumanMessage ''What is the price of A?'')"
    by (simp add: start_def add_messages_def first_run_messages_def index_first_def)
next
  show "run echo_env [''t1'' \<mapsto> first_run_messages] first_run_calls ''Any review of B?'' ''t1'' =
     Inr (first_answer,
       [''t1'' \<mapsto> first_run_messages @
          [HumanMessage ''Any review of B?'', HumanMessage ''TOOL: retriever'',
           HumanMessage ''No relevant documents found.'', HumanMessage first_answer]],
       first_run_calls @
          [RetrieverCall ''TOOL: retriever'',
           LLMCall (grader_prompt ''What is the price of A?'' ''No relevant documents found.''),
           LLMCall first_answer])"
    using kw_second
    by (simp add: run_def start_def add_messages_def execute_echo_retrieval_default index_last_def
        first_answer_def first_run_messages_def first_run_calls_def)
qed

text \<open>
  C6 (no bound on the rewrite loop), as stated: no bound is imposed on the iterations of
  the rewrite loop, and under suitable collaborator outputs the cycle repeats without
  end. It fails on the claim's own example, a language model that always answers
  \<^verbatim>\<open>price\<close> (no \<^verbatim>\<open>yes\<close> for the grader, a routing keyword in every rewritten question): the
  run does not go on for ever, it is stopped at the recursion limit and raises
  \<^verbatim>\<open>GraphRecursionError\<close>.
\<close>

theorem C6_rewrite_loop_counterexample:
  "run loop_env Map.empty [] ''What is the PRICE of iPhone 15?'' default_thread =
     Inl GraphRecursionError"
proof -
  have "cycling 0 (start Map.empty [] ''What is the PRICE of iPhone 15?'' default_thread)"
    using kw_price_question by (rule cycling_start)
  then have "execute recursion_limit loop_env
      (start Map.empty [] ''What is the PRICE of iPhone 15?'' default_thread) =
      Inl GraphRecursionError"
    by (rule cycling_execute)
  then show ?thesis
    by (simp add: run_def)
qed

text \<open>
  C6, amended. The source sets no cap of its own on the rewrite loop, and there are
  collaborator outputs (every grader response without \<^verbatim>\<open>yes\<close>, every rewritten question
  with a routing keyword) under which the run never reaches the terminal state: whatever
  the recursion limit, the steps taken within it go round the cycle \<^verbatim>\<open>Assistant\<close>,
  \<^verbatim>\<open>Retriever\<close> (with the grading on its edge), \<^verbatim>\<open>Rewriter\<close>, and the run is stopped at the
  limit with \<^verbatim>\<open>GraphRecursionError\<close> instead of returning an answer; so is \<^verbatim>\<open>run\<close>, under
  the default limit.
\<close>

theorem C6_rewrite_loop_amended:
  assumes "has_routing_keyword query"
  shows "execute limit loop_env (start saver log query thread_id) = Inl GraphRecursionError \<and>
         (\<forall>n \<le> limit. \<exists>c. steps n loop_env (start saver log query thread_id) = Inr c \<and>
                 node c = [Assistant, Retriever, Rewriter] ! (n mod 3)) \<and>
         run loop_env saver log query thread_id = Inl GraphRecursionError"
proof (intro conjI allI impI)
  have cyc: "cycling 0 (start saver log query thread_id)"
    using assms by (rule cycling_start)
  then show "execute limit loop_env (start saver log query thread_id) = Inl GraphRecursionError"
    by (rule cycling_execute)
  from cyc have "execute recursion_limit loop_env (start saver log query thread_id) =
      Inl GraphRecursionError"
    by (rule cycling_execute)
  then show "run loop_env saver log query thread_id = Inl GraphRecursionError"
    by (simp add: run_def)
  fix n
  from cycling_steps [OF cyc, of n]
  show "\<exists>c. steps n loop_env (start saver log query thread_id) = Inr c \<and>
                 node c = [Assistant, Retriever, Rewriter] ! (n mod 3)"
    by (auto simp: cycling_def)
qed

theorem C6_rewrite_loop_amended_witness:
  "has_routing_keyword ''What is the PRICE of iPhone 15?'' \<and>
   execute 25 loop_env
       (start Map.empty [] ''What is the PRICE of iPhone 15?'' default_thread) =
     Inl GraphRecursionError \<and>
   (5::nat) \<le> 25 \<and>
   (\<exists>c. steps 5 loop_env
           (start Map.empty [] ''What is the PRICE of iPhone 15?'' default_thread) = Inr c \<and>
        node c = Rewriter) \<and>
   run loop_env Map.empty [] ''What is the PRICE of iPhone 15?'' default_thread =
     Inl GraphRecursionError"
proof -
  note h = kw_price_question
  from C6_rewrite_loop_amended [OF h, of 25 Map.empty "[]" default_thread]
  have 1: "execute 25 loop_env
       (start Map.empty [] ''What is the PRICE of iPhone 15?'' default_thread) =
     Inl GraphRecursionError"
    and 2: "\<forall>n \<le> 25. \<exists>c. steps n loop_env
           (start Map.empty [] ''What is the PRICE of iPhone 15?'' default_thread) = Inr c \<and>
        node c = [Assistant, Retriever, Rewriter] ! (n mod 3)"
    and 3: "run loop_env Map.empty [] ''What is the PRICE of iPhone 15?'' default_thread =
     Inl GraphRecursionError"
    by blast+
  from 2 have "\<exists>c. steps 5 loop_env
           (start Map.empty [] ''What is the PRICE of iPhone 15?'' default_thread) = Inr c \<and>
        node c = [Assistant, Retriever, Rewriter] ! (5 mod 3)"
    by (rule allE [of _ 5]) simp
  with h 1 3 show ?thesis by simp
qed

text \<open>
  C7 (Document Formatter, empty case). For the empty sequence of evidence items, and for
  an absent one, the formatter returns exactly \<^verbatim>\<open>No relevant documents found.\<close>
\<close>

theorem C7_format_docs_empty:
  "format_docs None = ''No relevant documents found.'' \<and>
   format_docs (Some []) = ''No relevant documents found.''"
  by (simp add: format_docs_def no_documents_def)

text \<open>
  C8 (Document Formatter, non-empty case). For a non-empty sequence of evidence items the
  output is the blocks of the items, one four-field block (title, price, rating, review
  text with the white space at its ends removed) per item, in the order of the input,
  joined by the separator; and after the call the sequence holds the same items with the
  same contents as before: neither the sequence nor an item is mutated.
\<close>

theorem C8_format_docs_blocks:
  assumes "docs \<noteq> []"
  shows "format_docs (Some docs) =
     join ''\<newline>\<newline>---\<newline>\<newline>''
       (map (\<lambda>d. four_field_block (meta_field d ''product_title'') (meta_field d ''price'')
                     (meta_field d ''rating'') (strip (page_content d))) docs) \<and>
     format_docs_st (Some docs) = (Some docs, format_docs (Some docs))"
proof -
  from assms obtain d ds where docs: "docs = d # ds"
    by (cases docs) auto
  then have "format_docs (Some docs) = join separator (map formatted docs)"
    by (simp add: format_docs_def format_loop_append)
  also have "map formatted docs =
      map (\<lambda>d. four_field_block (meta_field d ''product_title'') (meta_field d ''price'')
                   (meta_field d ''rating'') (strip (page_content d))) docs"
    by (simp add: formatted_block)
  finally have 1: "format_docs (Some docs) =
     join ''\<newline>\<newline>---\<newline>\<newline>''
       (map (\<lambda>d. four_field_block (meta_field d ''product_title'') (meta_field d ''price'')
                     (meta_field d ''rating'') (strip (page_content d))) docs)"
    by (simp add: separator_def)
  from docs have 2: "format_docs_st (Some docs) = (Some docs, format_docs (Some docs))"
    by (simp add: format_docs_st_def format_docs_def format_loop_st_append format_loop_append
        del: format_loop_st.simps format_loop.simps)
  from 1 2 show ?thesis ..
qed

theorem C8_format_docs_blocks_witness:
  "[doc1, doc2] \<noteq> [] \<and>
   format_docs (Some [doc1, doc2]) =
     ''Title: iPhone 15\<newline>Price: 79900\<newline>Rating: N/A\<newline>Reviews:\<newline>Great phone'' @
     ''\<newline>\<newline>---\<newline>\<newline>'' @
     ''Title: N/A\<newline>Price: N/A\<newline>Rating: N/A\<newline>Reviews:\<newline>Battery is weak'' \<and>
   fst (format_docs_st (Some [doc1, doc2])) = Some [doc1, doc2]"
  using C8_format_docs_blocks [of "[doc1, doc2]"]
  by (simp add: doc1_def doc2_def four_field_block_def meta_field_def strip_def is_space_def)

text \<open>
  C9 (append-only Conversation State). Every step of a node (router, retriever, generator,
  rewriter) that completes leaves the state as it was with exactly one new turn at the end:
  no earlier turn is changed or removed.
\<close>

theorem C9_append_only:
  assumes "node c \<noteq> END" and "step E c = Inr c'"
  shows "\<exists>turn. messages (state c') = messages (state c) @ [turn]"
  using assms by (rule step_messages)

theorem C9_append_only_witness:
  "node \<lparr>node = Rewriter, state = graded_state, calls = []\<rparr> \<noteq> END \<and>
   (\<exists>c'. step (const_env ''What is the price of the phone?'')
            \<lparr>node = Rewriter, state = graded_state, calls = []\<rparr> = Inr c' \<and>
     (\<exists>turn. messages (state c') = messages graded_state @ [turn]))"
proof -
  let ?c = "\<lparr>node = Rewriter, state = graded_state, calls = []\<rparr>"
  let ?E = "const_env ''What is the price of the phone?''"
  have 1: "node ?c \<noteq> END" by simp
  have 2: "step ?E ?c = Inr \<lparr>node = Assistant,
      state = graded_state\<lparr>messages := messages graded_state @
                 [HumanMessage ''What is the price of the phone?'']\<rparr>,
      calls = [] @ [LLMCall (rewrite_prompt (content (hd (messages graded_state))))]\<rparr>"
    by (rule step_Rewriter) (simp_all add: graded_state_def const_env_def)
  from C9_append_only [OF 1 2] 1 2 show ?thesis by simp
qed

text \<open>
  C10 (the sentinel edge case). After the router step the graph goes to the Retriever node
  exactly when the latest turn's text has \<^verbatim>\<open>TOOL\<close> somewhere in it. So when the question
  has no routing keyword and the directly generated answer happens to contain \<^verbatim>\<open>TOOL\<close>,
  the engine goes to Retrieving instead of ending after the direct answer.
\<close>

theorem C10_sentinel_edge_case:
  "(\<forall>E c c'. node c = Assistant \<longrightarrow> step E c = Inr c' \<longrightarrow>
      (node c' = Retriever) = sublist ''TOOL'' (content (last (messages (state c'))))) \<and>
   (\<forall>E st log response.
      messages st \<noteq> [] \<longrightarrow> \<not> has_routing_keyword (content (last (messages st))) \<longrightarrow>
      llm E (length log) (assistant_prompt (content (last (messages st)))) = Inr response \<longrightarrow>
      sublist ''TOOL'' response \<longrightarrow>
      step E \<lparr>node = Assistant, state = st, calls = log\<rparr> =
        Inr \<lparr>node = Retriever,
             state = st\<lparr>messages := messages st @ [HumanMessage response]\<rparr>,
             calls = log @ [LLMCall (assistant_prompt (content (last (messages st))))]\<rparr>)"
proof (intro conjI allI impI)
  fix E c c'
  assume "node c = Assistant" "step E c = Inr c'"
  then show "(node c' = Retriever) = sublist ''TOOL'' (content (last (messages (state c'))))"
    by (auto simp: step_def assistant_edge_def index_last_def Let_def str_in_sublist [symmetric]
        split: prod.splits sum.splits if_splits)
next
  fix E :: env and st :: AgentState and log :: "call list" and response :: string
  assume "messages st \<noteq> []" "\<not> has_routing_keyword (content (last (messages st)))"
    "llm E (length log) (assistant_prompt (content (last (messages st)))) = Inr response"
    "sublist ''TOOL'' response"
  then show "step E \<lparr>node = Assistant, state = st, calls = log\<rparr> =
        Inr \<lparr>node = Retriever,
             state = st\<lparr>messages := messages st @ [HumanMessage response]\<rparr>,
             calls = log @ [LLMCall (assistant_prompt (content (last (messages st))))]\<rparr>"
    by (simp add: step_Assistant_direct)
qed

theorem C10_sentinel_edge_case_witness:
  "messages hello_question \<noteq> [] \<and>
   \<not> has_routing_keyword (content (last (messages hello_question))) \<and>
   llm (const_env ''Use the TOOL'') (length ([] :: call list))
     (assistant_prompt (content (last (messages hello_question)))) = Inr ''Use the TOOL'' \<and>
   sublist ''TOOL'' ''Use the TOOL'' \<and>
   step (const_env ''Use the TOOL'') \<lparr>node = Assistant, state = hello_question, calls = []\<rparr> =
     Inr \<lparr>node = Retriever,
          state = \<lparr>messages = [HumanMessage ''Hello'', HumanMessage ''Use the TOOL'']\<rparr>,
          calls = [LLMCall (assistant_prompt ''Hello'')]\<rparr>"
proof -
  have 1: "messages hello_question \<noteq> []"
    by (simp add: hello_question_def)
  have 2: "\<not> has_routing_keyword (content (last (messages hello_question)))"
    using kw_hello by (simp add: hello_question_def)
  have 3: "llm (const_env ''Use the TOOL'') (length ([] :: call list))
     (assistant_prompt (content (last (messages hello_question)))) = Inr ''Use the TOOL''"
    by (simp add: const_env_def)
  have 4: "sublist ''TOOL'' ''Use the TOOL''"
    by (simp add: str_in_sublist [symmetric])
  from C10_sentinel_edge_case 1 2 3 4
  have "step (const_env ''Use the TOOL'') \<lparr>node = Assistant, state = hello_question, calls = []\<rparr> =
     Inr \<lparr>node = Retriever,
          state = hello_question\<lparr>messages := messages hello_question @
                    [HumanMessage ''Use the TOOL'']\<rparr>,
          calls = [] @ [LLMCall (assistant_prompt (content (last (messages hello_question))))]\<rparr>"
    by blast
  with 1 2 3 4 show ?thesis
    by (simp add: hello_question_def)
qed

end
